theory Spec2Isabelle
  imports Main
begin

section \<open>The OTP lifecycle manager of the tutor web application\<close>

text \<open>
  A shallow embedding of the module \<^verbatim>\<open>utils/otp.js\<close> (the third document of
  \<^verbatim>\<open>src/backend/src/server.js\<close>): the code generator \<^verbatim>\<open>generateOTP\<close>, the store
  operations \<^verbatim>\<open>storeOTP\<close>, \<^verbatim>\<open>deleteOTP\<close>, \<^verbatim>\<open>getOTPInfo\<close>, the verifier
  \<^verbatim>\<open>verifyOTP\<close> and the body of the cleanup timer.

  Conventions of the embedding:
  \<^item> the module-level \<^verbatim>\<open>Map\<close> named \<^verbatim>\<open>otpStore\<close> is passed in and returned;
  \<^item> every call of \<^verbatim>\<open>Date.now()\<close> is one argument, in the order the calls are made;
  \<^item> the library functions \<^verbatim>\<open>bcrypt.hash\<close>, \<^verbatim>\<open>bcrypt.compare\<close> and
    \<^verbatim>\<open>crypto.randomInt\<close> are arguments;
  \<^item> \<^verbatim>\<open>throw new Error(m)\<close> is the value \<open>Inl (Error m)\<close>;
  \<^item> a character is one code unit below 256 (the Latin-1 range of JavaScript's UTF-16
    strings), numbers are integers;
  \<^item> each function runs from its call to its return with no other call in between.
\<close>

subsection \<open>Configuration constants\<close>

definition OTP_LENGTH :: nat where
  "OTP_LENGTH = 6"

definition OTP_EXPIRATION_MS :: int where
  "OTP_EXPIRATION_MS = 5 * 60 * 1000"

definition MAX_VERIFICATION_ATTEMPTS :: int where
  "MAX_VERIFICATION_ATTEMPTS = 5"

definition CLEANUP_INTERVAL_MS :: int where
  "CLEANUP_INTERVAL_MS = 60 * 1000"

subsection \<open>Strings\<close>

text \<open>
  The white space of \<^verbatim>\<open>String.prototype.trim\<close> and of the regular expression class
  \<^verbatim>\<open>\s\<close> below code unit 256: tab, line feed, vertical tab, form feed, carriage
  return, space and no-break space.
\<close>

definition isWhiteSpace :: "char \<Rightarrow> bool" where
  "isWhiteSpace c =
     (let n = (of_char c :: nat)
      in n = 9 \<or> n = 10 \<or> n = 11 \<or> n = 12 \<or> n = 13 \<or> n = 32 \<or> n = 160)"

definition trim :: "string \<Rightarrow> string" where
  "trim s = rev (dropWhile isWhiteSpace (rev (dropWhile isWhiteSpace s)))"

definition toLowerCaseChar :: "char \<Rightarrow> char" where
  "toLowerCaseChar c =
     (let n = (of_char c :: nat)
      in if (65 \<le> n \<and> n \<le> 90) \<or> (192 \<le> n \<and> n \<le> 222 \<and> n \<noteq> 215)
         then char_of (n + 32) else c)"

definition toLowerCase :: "string \<Rightarrow> string" where
  "toLowerCase s = map toLowerCaseChar s"

definition isDigit :: "char \<Rightarrow> bool" where
  "isDigit c = (let n = (of_char c :: nat) in 48 \<le> n \<and> n \<le> 57)"

text \<open>
  \<^verbatim>\<open>/^[^\s@]+@[^\s@]+\.[^\s@]+$/.test(s)\<close>: the string has no white space, a nonempty
  part before its first \<^verbatim>\<open>@\<close>, no second \<^verbatim>\<open>@\<close>, and after the \<^verbatim>\<open>@\<close> a dot that is
  neither the first nor the last character.
\<close>

definition emailRegex_test :: "string \<Rightarrow> bool" where
  "emailRegex_test s =
     (let local = takeWhile (\<lambda>c. c \<noteq> CHR ''@'') s;
          rest = dropWhile (\<lambda>c. c \<noteq> CHR ''@'') s
      in local \<noteq> [] \<and> rest \<noteq> [] \<and>
         list_all (\<lambda>c. \<not> isWhiteSpace c) s \<and>
         list_all (\<lambda>c. c \<noteq> CHR ''@'') (tl rest) \<and>
         list_ex (\<lambda>c. c = CHR ''.'') (butlast (tl (tl rest))))"

definition isValidEmail :: "string \<Rightarrow> bool" where
  "isValidEmail email =
     (if email = [] then False else emailRegex_test (toLowerCase (trim email)))"

definition isValidOTPFormat :: "string \<Rightarrow> bool" where
  "isValidOTPFormat otp =
     (if otp = [] then False else length otp = 6 \<and> list_all isDigit otp)"

subsection \<open>The code generator\<close>

text \<open>\<^verbatim>\<open>Number.prototype.toString\<close> on a non-negative integer: its decimal digits.\<close>

definition digitChar :: "nat \<Rightarrow> char" where
  "digitChar d = char_of (48 + d)"

fun toString :: "nat \<Rightarrow> string" where
  "toString n = (if n < 10 then [digitChar n] else toString (n div 10) @ [digitChar (n mod 10)])"

definition padStart :: "nat \<Rightarrow> char \<Rightarrow> string \<Rightarrow> string" where
  "padStart targetLength c s = replicate (targetLength - length s) c @ s"

text \<open>
  \<open>randomInt lo hi\<close> stands for \<^verbatim>\<open>crypto.randomInt(lo, hi)\<close>, whose contract is
  \<open>lo \<le> randomInt lo hi < hi\<close>.
\<close>

definition generateOTP :: "(nat \<Rightarrow> nat \<Rightarrow> nat) \<Rightarrow> string" where
  "generateOTP randomInt =
     (let min = 100000; max = 999999
      in padStart OTP_LENGTH (CHR ''0'') (toString (randomInt min (max + 1))))"

text \<open>The number a string of decimal digits denotes.\<close>

definition digitValue :: "char \<Rightarrow> nat" where
  "digitValue c = of_char c - 48"

definition parseDecimal :: "string \<Rightarrow> nat" where
  "parseDecimal s = foldl (\<lambda>acc c. 10 * acc + digitValue c) 0 s"

subsection \<open>The record store\<close>

record otp_record =
  otpHash :: string
  expiresAt :: int
  attempts :: int
  createdAt :: int
  lastAttemptAt :: "int option"

type_synonym otp_store = "string \<rightharpoonup> otp_record"

datatype error = Error string

text \<open>
  \<open>bhash otp rounds\<close> stands for \<^verbatim>\<open>await bcrypt.hash(otp, rounds)\<close>. The three clock
  readings are those of lines 296, 297 and 313 of the source.
\<close>

definition storeOTP ::
  "(string \<Rightarrow> nat \<Rightarrow> string) \<Rightarrow> int \<Rightarrow> int \<Rightarrow> int \<Rightarrow> otp_store \<Rightarrow> string \<Rightarrow> string
     \<Rightarrow> error + otp_store" where
  "storeOTP bhash now1 now2 now3 store email otp =
     (if \<not> isValidEmail email then Inl (Error ''Invalid email format'')
      else if \<not> isValidOTPFormat otp then Inl (Error ''Invalid OTP format'')
      else
        let normalizedEmail = toLowerCase (trim email);
            expiresAt' = now1 + OTP_EXPIRATION_MS;
            createdAt' = now2;
            otpHash' = bhash otp 10;
            store1 = store(normalizedEmail \<mapsto>
              \<lparr>otpHash = otpHash', expiresAt = expiresAt', attempts = 0,
               createdAt = createdAt', lastAttemptAt = None\<rparr>)
        in case store1 normalizedEmail of
             None \<Rightarrow> Inr store1
           | Some existing \<Rightarrow>
               if now3 > expiresAt existing then Inr (store1(normalizedEmail := None))
               else Inr store1)"

definition deleteOTP :: "otp_store \<Rightarrow> string \<Rightarrow> bool \<times> otp_store" where
  "deleteOTP store email =
     (if \<not> isValidEmail email then (False, store)
      else
        let normalizedEmail = toLowerCase (trim email)
        in (store normalizedEmail \<noteq> None, store(normalizedEmail := None)))"

text \<open>One run of the cleanup timer's callback at clock reading \<open>now\<close>.\<close>

definition cleanupTick :: "int \<Rightarrow> otp_store \<Rightarrow> otp_store" where
  "cleanupTick now store =
     (\<lambda>email. case store email of
        None \<Rightarrow> None
      | Some data \<Rightarrow> if now > expiresAt data then None else Some data)"

record otp_info =
  info_email :: string
  info_expiresAt :: int
  info_attempts :: int
  info_remainingAttempts :: int
  info_isExpired :: bool
  info_createdAt :: int
  info_lastAttemptAt :: "int option"

definition getOTPInfo :: "int \<Rightarrow> otp_store \<Rightarrow> string \<Rightarrow> otp_info option" where
  "getOTPInfo now store email =
     (if \<not> isValidEmail email then None
      else
        let normalizedEmail = toLowerCase (trim email)
        in case store normalizedEmail of
             None \<Rightarrow> None
           | Some stored \<Rightarrow>
               Some \<lparr>info_email = normalizedEmail,
                     info_expiresAt = expiresAt stored,
                     info_attempts = attempts stored,
                     info_remainingAttempts = MAX_VERIFICATION_ATTEMPTS - attempts stored,
                     info_isExpired = (now > expiresAt stored),
                     info_createdAt = createdAt stored,
                     info_lastAttemptAt = lastAttemptAt stored\<rparr>)"

subsection \<open>The verifier\<close>

record verify_result =
  valid :: bool
  reason :: "string option"

text \<open>
  What one call of \<^verbatim>\<open>verifyOTP\<close> does: the object it returns, the store it leaves, and
  the calls of \<^verbatim>\<open>bcrypt.compare\<close> it made, each as the pair of its arguments.
\<close>

record verify_run =
  outcome :: verify_result
  store_after :: otp_store
  compare_calls :: "(string \<times> string) list"

definition dummyHash :: string where
  "dummyHash = ''$2b$10$dummyhashforsecuritypurposes''"

text \<open>
  \<open>bcompare otp h\<close> stands for \<^verbatim>\<open>await bcrypt.compare(otp, h)\<close>. The two clock readings
  are those of lines 349 and 364 of the source.
\<close>

definition verifyOTP ::
  "(string \<Rightarrow> string \<Rightarrow> bool) \<Rightarrow> int \<Rightarrow> int \<Rightarrow> otp_store \<Rightarrow> string \<Rightarrow> string \<Rightarrow> verify_run" where
  "verifyOTP bcompare now1 now2 store email otp =
     (if \<not> isValidEmail email then
        \<lparr>outcome = \<lparr>valid = False, reason = Some ''Invalid email format''\<rparr>,
         store_after = store, compare_calls = []\<rparr>
      else if \<not> isValidOTPFormat otp then
        \<lparr>outcome = \<lparr>valid = False, reason = Some ''Invalid OTP format''\<rparr>,
         store_after = store, compare_calls = []\<rparr>
      else
        let normalizedEmail = toLowerCase (trim email)
        in case store normalizedEmail of
             None \<Rightarrow>
               \<lparr>outcome = \<lparr>valid = False, reason = Some ''OTP not found or expired''\<rparr>,
                store_after = store, compare_calls = [(otp, dummyHash)]\<rparr>
           | Some stored \<Rightarrow>
               if now1 > expiresAt stored then
                 \<lparr>outcome = \<lparr>valid = False, reason = Some ''OTP expired''\<rparr>,
                  store_after = store(normalizedEmail := None),
                  compare_calls = [(otp, dummyHash)]\<rparr>
               else if attempts stored \<ge> MAX_VERIFICATION_ATTEMPTS then
                 \<lparr>outcome = \<lparr>valid = False,
                             reason = Some ''Maximum verification attempts exceeded''\<rparr>,
                  store_after = store(normalizedEmail := None), compare_calls = []\<rparr>
               else
                 let stored' = stored\<lparr>attempts := attempts stored + 1,
                                      lastAttemptAt := Some now2\<rparr>;
                     store1 = store(normalizedEmail \<mapsto> stored');
                     isValid = bcompare otp (otpHash stored')
                 in if isValid then
                      \<lparr>outcome = \<lparr>valid = True, reason = None\<rparr>,
                       store_after = store1(normalizedEmail := None),
                       compare_calls = [(otp, otpHash stored')]\<rparr>
                    else
                      \<lparr>outcome = \<lparr>valid = False, reason = Some ''Invalid OTP''\<rparr>,
                       store_after = store1(normalizedEmail \<mapsto> stored'),
                       compare_calls = [(otp, otpHash stored')]\<rparr>)"

text \<open>The outcomes of the specification, as the result objects the code returns.\<close>

definition Valid :: verify_result where
  "Valid = \<lparr>valid = True, reason = None\<rparr>"

definition NotFound :: verify_result where
  "NotFound = \<lparr>valid = False, reason = Some ''OTP not found or expired''\<rparr>"

definition Expired :: verify_result where
  "Expired = \<lparr>valid = False, reason = Some ''OTP expired''\<rparr>"

definition AttemptsExceeded :: verify_result where
  "AttemptsExceeded = \<lparr>valid = False, reason = Some ''Maximum verification attempts exceeded''\<rparr>"

definition Invalid :: verify_result where
  "Invalid = \<lparr>valid = False, reason = Some ''Invalid OTP''\<rparr>"

text \<open>
  A sequence of \<^verbatim>\<open>verifyOTP\<close> calls for one email, each call given as its code and its
  two clock readings: the results in order, and the store after the last call.
\<close>

fun verifyOTP_calls ::
  "(string \<Rightarrow> string \<Rightarrow> bool) \<Rightarrow> otp_store \<Rightarrow> string \<Rightarrow> (string \<times> int \<times> int) list
     \<Rightarrow> verify_result list \<times> otp_store" where
  "verifyOTP_calls bcompare store email [] = ([], store)"
| "verifyOTP_calls bcompare store email ((otp, now1, now2) # calls) =
     (let run = verifyOTP bcompare now1 now2 store email otp;
          (results, store') = verifyOTP_calls bcompare (store_after run) email calls
      in (outcome run # results, store'))"

subsection \<open>A stand-in for the hash library, for evaluation on concrete inputs\<close>

definition plain_hash :: "string \<Rightarrow> nat \<Rightarrow> string" where
  "plain_hash otp rounds = ''$plain$'' @ otp"

definition plain_compare :: "string \<Rightarrow> string \<Rightarrow> bool" where
  "plain_compare otp h = (h = ''$plain$'' @ otp)"

definition lowest_randomInt :: "nat \<Rightarrow> nat \<Rightarrow> nat" where
  "lowest_randomInt lo hi = lo"


text \<open>
  The store after \<^verbatim>\<open>storeOTP("a@b.com", "482193")\<close> on the empty store, with all its
  clock readings 0.
\<close>

definition issued_store :: otp_store where
  "issued_store = [''a@b.com'' \<mapsto>
     \<lparr>otpHash = ''$plain$482193'', expiresAt = 300000, attempts = 0, createdAt = 0,
      lastAttemptAt = None\<rparr>]"

definition exhausted_store :: otp_store where
  "exhausted_store = [''a@b.com'' \<mapsto>
     \<lparr>otpHash = ''$plain$482193'', expiresAt = 300000, attempts = 5, createdAt = 0,
      lastAttemptAt = Some 1\<rparr>]"

section \<open>Lemmas\<close>

declare toString.simps [simp del]

subsection \<open>Decimal digits\<close>

lemma digitChar_isDigit: "d < 10 \<Longrightarrow> isDigit (digitChar d)"
  by (simp add: isDigit_def digitChar_def)

lemma digitValue_digitChar: "d < 10 \<Longrightarrow> digitValue (digitChar d) = d"
  by (simp add: digitValue_def digitChar_def)

lemma toString_digits: "list_all isDigit (toString n)"
proof (induction n rule: toString.induct)
  case (1 n)
  show ?case
  proof (cases "n < 10")
    case True
    then show ?thesis by (subst toString.simps) (simp add: digitChar_isDigit)
  next
    case False
    then have "list_all isDigit (toString (n div 10))" using 1 by simp
    moreover have "isDigit (digitChar (n mod 10))" by (simp add: digitChar_isDigit)
    ultimately show ?thesis using False by (subst toString.simps) simp
  qed
qed

lemma parseDecimal_snoc: "parseDecimal (s @ [c]) = 10 * parseDecimal s + digitValue c"
  by (simp add: parseDecimal_def)

lemma parseDecimal_toString: "parseDecimal (toString n) = n"
proof (induction n rule: toString.induct)
  case (1 n)
  show ?case
  proof (cases "n < 10")
    case True
    then show ?thesis
      by (subst toString.simps) (simp add: parseDecimal_def digitValue_digitChar)
  next
    case False
    then have "parseDecimal (toString (n div 10)) = n div 10" using 1 by simp
    then show ?thesis using False
      by (subst toString.simps) (simp add: parseDecimal_snoc digitValue_digitChar)
  qed
qed

lemma length_toString_le: "n < 10 ^ k \<Longrightarrow> 0 < k \<Longrightarrow> length (toString n) \<le> k"
proof (induction k arbitrary: n)
  case 0
  then show ?case by simp
next
  case (Suc k)
  show ?case
  proof (cases "n < 10")
    case True
    then show ?thesis by (subst toString.simps) simp
  next
    case False
    then have k: "0 < k" using Suc.prems by (cases k) auto
    have "n div 10 < 10 ^ k" using Suc.prems by (simp add: less_mult_imp_div_less mult.commute)
    then have "length (toString (n div 10)) \<le> k" using Suc.IH k by simp
    then show ?thesis using False by (subst toString.simps) simp
  qed
qed

lemma length_toString_gt: "10 ^ k \<le> n \<Longrightarrow> k < length (toString n)"
proof (induction k arbitrary: n)
  case 0
  then show ?case by (subst toString.simps) simp
next
  case (Suc k)
  have "(10::nat) \<le> 10 ^ Suc k" by simp
  then have ge: "\<not> n < 10" using Suc.prems by linarith
  have "10 ^ k \<le> n div 10" using Suc.prems by (simp add: less_eq_div_iff_mult_less_eq mult.commute)
  then have "k < length (toString (n div 10))" using Suc.IH by simp
  then show ?case using ge by (subst toString.simps) simp
qed

lemma length_toString_six: "100000 \<le> n \<Longrightarrow> n < 1000000 \<Longrightarrow> length (toString n) = 6"
  using length_toString_le [of n 6] length_toString_gt [of 5 n] by simp

subsection \<open>The regular expression of the email check\<close>

text \<open>
  \<open>emailRegex_test\<close> accepts exactly the strings the regular expression
  \<^verbatim>\<open>^[^\s@]+@[^\s@]+\.[^\s@]+$\<close> matches: a nonempty \<open>A\<close>, an \<^verbatim>\<open>@\<close>, a nonempty \<open>B\<close>, a
  dot and a nonempty \<open>C\<close>, with neither white space nor \<^verbatim>\<open>@\<close> in \<open>A\<close>, \<open>B\<close> and \<open>C\<close>.
\<close>

lemma emailRegex_test_complete:
  assumes s: "s = A @ ''@'' @ B @ ''.'' @ C"
    and ne: "A \<noteq> []" "B \<noteq> []" "C \<noteq> []"
    and cls: "\<forall>c \<in> set (A @ B @ C). \<not> isWhiteSpace c \<and> c \<noteq> CHR ''@''"
  shows "emailRegex_test s"
proof -
  let ?P = "\<lambda>c. c \<noteq> CHR ''@''"
  have A: "\<forall>c \<in> set A. ?P c" using cls by simp
  have tw: "takeWhile ?P s = A" using A by (simp add: s takeWhile_append2)
  have dw: "dropWhile ?P s = CHR ''@'' # B @ CHR ''.'' # C"
    using A by (simp add: s dropWhile_append2)
  have ws: "\<not> isWhiteSpace CHR ''@''" "\<not> isWhiteSpace CHR ''.''"
    by (simp_all add: isWhiteSpace_def)
  have all_ws: "list_all (\<lambda>c. \<not> isWhiteSpace c) s"
    using cls ws by (simp add: s list_all_iff)
  have no_at: "list_all ?P (B @ CHR ''.'' # C)" using cls by (simp add: list_all_iff)
  obtain b B' where B: "B = b # B'" using ne(2) by (cases B) auto
  have "butlast (tl (B @ CHR ''.'' # C)) = B' @ CHR ''.'' # butlast C"
    using ne(3) by (simp add: B butlast_append)
  then have dot: "list_ex (\<lambda>c. c = CHR ''.'') (butlast (tl (B @ CHR ''.'' # C)))"
    by (simp add: list_ex_iff)
  show ?thesis
    using ne(1) all_ws no_at dot by (simp add: emailRegex_test_def tw dw)
qed

lemma emailRegex_test_sound:
  assumes "emailRegex_test s"
  shows "\<exists>A B C. s = A @ ''@'' @ B @ ''.'' @ C \<and> A \<noteq> [] \<and> B \<noteq> [] \<and> C \<noteq> [] \<and>
           (\<forall>c \<in> set (A @ B @ C). \<not> isWhiteSpace c \<and> c \<noteq> CHR ''@'')"
proof -
  let ?P = "\<lambda>c. c \<noteq> CHR ''@''"
  define A where "A = takeWhile ?P s"
  define R where "R = dropWhile ?P s"
  have a: "A \<noteq> []" and r: "R \<noteq> []"
    and ws: "list_all (\<lambda>c. \<not> isWhiteSpace c) s"
    and at: "list_all ?P (tl R)"
    and dot: "list_ex (\<lambda>c. c = CHR ''.'') (butlast (tl (tl R)))"
    using assms by (simp_all add: emailRegex_test_def Let_def A_def R_def)
  have "\<not> ?P (hd R)" using r unfolding R_def by (rule hd_dropWhile)
  then obtain D where R: "R = CHR ''@'' # D" using r by (cases R) auto
  have at': "list_all ?P D" using at by (simp add: R)
  have dot': "list_ex (\<lambda>c. c = CHR ''.'') (butlast (tl D))" using dot by (simp add: R)
  have split: "s = A @ CHR ''@'' # D"
    using takeWhile_dropWhile_id [of ?P s] by (simp add: A_def [symmetric] R_def [symmetric] R)
  from dot' obtain X Y where XY: "butlast (tl D) = X @ CHR ''.'' # Y"
    by (auto simp: list_ex_iff dest: split_list)
  obtain d T where D: "D = d # T" using XY by (cases D) auto
  have XY': "butlast T = X @ CHR ''.'' # Y" using XY by (simp add: D)
  then have T: "T \<noteq> []" by auto
  define l where "l = last T"
  have "T = butlast T @ [l]" using T by (simp add: l_def)
  then have T': "T = X @ CHR ''.'' # Y @ [l]" using XY' by simp
  define B where "B = d # X"
  define C where "C = Y @ [l]"
  have s_eq: "s = A @ ''@'' @ B @ ''.'' @ C"
    by (simp add: split D T' B_def C_def)
  have inA: "\<forall>c \<in> set A. ?P c" unfolding A_def by (auto dest: set_takeWhileD)
  have inBC: "\<forall>c \<in> set B \<union> set C. ?P c"
    using at' by (auto simp: list_all_iff D T' B_def C_def)
  have nows: "\<forall>c \<in> set (A @ B @ C). \<not> isWhiteSpace c"
    using ws by (auto simp: list_all_iff s_eq)
  have cls: "\<forall>c \<in> set (A @ B @ C). \<not> isWhiteSpace c \<and> c \<noteq> CHR ''@''"
    using nows inA inBC by auto
  have "B \<noteq> []" "C \<noteq> []" by (simp_all add: B_def C_def)
  then show ?thesis using s_eq a cls by blast
qed

lemma emailRegex_test_iff:
  "emailRegex_test s \<longleftrightarrow>
     (\<exists>A B C. s = A @ ''@'' @ B @ ''.'' @ C \<and> A \<noteq> [] \<and> B \<noteq> [] \<and> C \<noteq> [] \<and>
        (\<forall>c \<in> set (A @ B @ C). \<not> isWhiteSpace c \<and> c \<noteq> CHR ''@''))"
proof
  assume "emailRegex_test s"
  then show "\<exists>A B C. s = A @ ''@'' @ B @ ''.'' @ C \<and> A \<noteq> [] \<and> B \<noteq> [] \<and> C \<noteq> [] \<and>
        (\<forall>c \<in> set (A @ B @ C). \<not> isWhiteSpace c \<and> c \<noteq> CHR ''@'')"
    by (rule emailRegex_test_sound)
next
  assume "\<exists>A B C. s = A @ ''@'' @ B @ ''.'' @ C \<and> A \<noteq> [] \<and> B \<noteq> [] \<and> C \<noteq> [] \<and>
        (\<forall>c \<in> set (A @ B @ C). \<not> isWhiteSpace c \<and> c \<noteq> CHR ''@'')"
  then obtain A B C where "s = A @ ''@'' @ B @ ''.'' @ C" "A \<noteq> []" "B \<noteq> []" "C \<noteq> []"
    "\<forall>c \<in> set (A @ B @ C). \<not> isWhiteSpace c \<and> c \<noteq> CHR ''@''"
    by (elim exE conjE)
  then show "emailRegex_test s" by (rule emailRegex_test_complete)
qed

subsection \<open>The branches of the verifier and of the store\<close>

lemma verifyOTP_absent:
  assumes "isValidEmail email" "isValidOTPFormat otp"
    and "store (toLowerCase (trim email)) = None"
  shows "verifyOTP bcompare now1 now2 store email otp =
     \<lparr>outcome = NotFound, store_after = store, compare_calls = [(otp, dummyHash)]\<rparr>"
  using assms by (simp add: verifyOTP_def NotFound_def)

lemma verifyOTP_expired:
  assumes "isValidEmail email" "isValidOTPFormat otp"
    and "store (toLowerCase (trim email)) = Some stored"
    and "now1 > expiresAt stored"
  shows "verifyOTP bcompare now1 now2 store email otp =
     \<lparr>outcome = Expired, store_after = store(toLowerCase (trim email) := None),
      compare_calls = [(otp, dummyHash)]\<rparr>"
  using assms by (simp add: verifyOTP_def Expired_def)

lemma verifyOTP_exceeded:
  assumes "isValidEmail email" "isValidOTPFormat otp"
    and "store (toLowerCase (trim email)) = Some stored"
    and "\<not> now1 > expiresAt stored"
    and "attempts stored \<ge> MAX_VERIFICATION_ATTEMPTS"
  shows "verifyOTP bcompare now1 now2 store email otp =
     \<lparr>outcome = AttemptsExceeded, store_after = store(toLowerCase (trim email) := None),
      compare_calls = []\<rparr>"
  using assms by (simp add: verifyOTP_def AttemptsExceeded_def)

lemma verifyOTP_match:
  assumes "isValidEmail email" "isValidOTPFormat otp"
    and "store (toLowerCase (trim email)) = Some stored"
    and "\<not> now1 > expiresAt stored"
    and "attempts stored < MAX_VERIFICATION_ATTEMPTS"
    and "bcompare otp (otpHash stored)"
  shows "verifyOTP bcompare now1 now2 store email otp =
     \<lparr>outcome = Valid, store_after = store(toLowerCase (trim email) := None),
      compare_calls = [(otp, otpHash stored)]\<rparr>"
  using assms by (simp add: verifyOTP_def Valid_def Let_def)

lemma verifyOTP_mismatch:
  assumes "isValidEmail email" "isValidOTPFormat otp"
    and "store (toLowerCase (trim email)) = Some stored"
    and "\<not> now1 > expiresAt stored"
    and "attempts stored < MAX_VERIFICATION_ATTEMPTS"
    and "\<not> bcompare otp (otpHash stored)"
  shows "verifyOTP bcompare now1 now2 store email otp =
     \<lparr>outcome = Invalid,
      store_after = store(toLowerCase (trim email) \<mapsto>
        stored\<lparr>attempts := attempts stored + 1, lastAttemptAt := Some now2\<rparr>),
      compare_calls = [(otp, otpHash stored)]\<rparr>"
  using assms by (simp add: verifyOTP_def Invalid_def Let_def)

lemma storeOTP_fresh:
  assumes "isValidEmail email" "isValidOTPFormat otp"
    and "\<not> now3 > now1 + OTP_EXPIRATION_MS"
  shows "storeOTP bhash now1 now2 now3 store email otp =
     Inr (store(toLowerCase (trim email) \<mapsto>
       \<lparr>otpHash = bhash otp 10, expiresAt = now1 + OTP_EXPIRATION_MS, attempts = 0,
        createdAt = now2, lastAttemptAt = None\<rparr>))"
  using assms by (simp add: storeOTP_def Let_def)

lemma storeOTP_Inr_valid:
  assumes "storeOTP bhash now1 now2 now3 store email otp = Inr store'"
  shows "isValidEmail email \<and> isValidOTPFormat otp"
  using assms by (auto simp: storeOTP_def split: if_splits)

lemma verifyOTP_calls_wrong:
  assumes "isValidEmail email"
    and "store (toLowerCase (trim email)) = Some stored"
    and "attempts stored + int (length calls) \<le> MAX_VERIFICATION_ATTEMPTS"
    and "\<forall>(otp, now1, now2) \<in> set calls.
           isValidOTPFormat otp \<and> \<not> bcompare otp (otpHash stored) \<and> \<not> now1 > expiresAt stored"
  shows "verifyOTP_calls bcompare store email calls =
           (replicate (length calls) Invalid,
            if calls = [] then store
            else store(toLowerCase (trim email) \<mapsto>
              stored\<lparr>attempts := attempts stored + int (length calls),
                     lastAttemptAt := Some (snd (snd (last calls)))\<rparr>))"
  using assms
proof (induction calls arbitrary: store stored)
  case Nil
  then show ?case by simp
next
  case (Cons call calls)
  obtain otp now1 now2 where call: "call = (otp, now1, now2)" by (cases call) auto
  let ?k = "toLowerCase (trim email)"
  let ?stored1 = "stored\<lparr>attempts := attempts stored + 1, lastAttemptAt := Some now2\<rparr>"
  let ?store1 = "store(?k \<mapsto> ?stored1)"
  have wf: "isValidOTPFormat otp" "\<not> bcompare otp (otpHash stored)" "\<not> now1 > expiresAt stored"
    using Cons.prems(4) call by auto
  have lt: "attempts stored < MAX_VERIFICATION_ATTEMPTS" using Cons.prems(3) by simp
  have run: "verifyOTP bcompare now1 now2 store email otp =
     \<lparr>outcome = Invalid, store_after = ?store1, compare_calls = [(otp, otpHash stored)]\<rparr>"
    using Cons.prems(1) wf(1) Cons.prems(2) wf(3) lt wf(2) by (rule verifyOTP_mismatch)
  have rest: "verifyOTP_calls bcompare ?store1 email calls =
           (replicate (length calls) Invalid,
            if calls = [] then ?store1
            else ?store1(?k \<mapsto>
              ?stored1\<lparr>attempts := attempts ?stored1 + int (length calls),
                       lastAttemptAt := Some (snd (snd (last calls)))\<rparr>))"
  proof (rule Cons.IH)
    show "isValidEmail email" by (rule Cons.prems(1))
    show "?store1 ?k = Some ?stored1" by simp
    show "attempts ?stored1 + int (length calls) \<le> MAX_VERIFICATION_ATTEMPTS"
      using Cons.prems(3) by simp
    show "\<forall>(otp, now1, now2) \<in> set calls.
           isValidOTPFormat otp \<and> \<not> bcompare otp (otpHash ?stored1) \<and> \<not> now1 > expiresAt ?stored1"
      using Cons.prems(4) by auto
  qed
  show ?case
  proof (cases "calls = []")
    case True
    then show ?thesis by (simp add: call run fun_eq_iff)
  next
    case False
    then show ?thesis by (simp add: call run rest add.assoc fun_eq_iff)
  qed
qed

subsection \<open>The running example\<close>

lemma example_email: "isValidEmail ''a@b.com'' \<and> toLowerCase (trim ''a@b.com'') = ''a@b.com''"
  by code_simp

lemma example_codes: "isValidOTPFormat ''482193'' \<and> isValidOTPFormat ''000000''"
  by (simp add: isValidOTPFormat_def isDigit_def)

lemma example_compare:
  "plain_compare ''482193'' (plain_hash ''482193'' 10) \<and>
   \<not> plain_compare ''000000'' (plain_hash ''482193'' 10)"
  by (simp add: plain_compare_def plain_hash_def)

lemma storeOTP_example:
  "storeOTP plain_hash 0 0 0 Map.empty ''a@b.com'' ''482193'' = Inr issued_store"
  using storeOTP_fresh [of "''a@b.com''" "''482193''" 0 0 plain_hash 0 Map.empty]
  by (simp add: example_email example_codes OTP_EXPIRATION_MS_def issued_store_def plain_hash_def)

lemma storeOTP_Inr_fresh:
  assumes "storeOTP bhash t1 t2 t3 store0 email otp = Inr store"
    and "\<not> t3 > t1 + OTP_EXPIRATION_MS"
  shows "isValidEmail email \<and> isValidOTPFormat otp \<and>
     store = store0(toLowerCase (trim email) \<mapsto>
       \<lparr>otpHash = bhash otp 10, expiresAt = t1 + OTP_EXPIRATION_MS, attempts = 0,
        createdAt = t2, lastAttemptAt = None\<rparr>)"
proof -
  have v: "isValidEmail email \<and> isValidOTPFormat otp" using assms(1) by (rule storeOTP_Inr_valid)
  then have "storeOTP bhash t1 t2 t3 store0 email otp =
     Inr (store0(toLowerCase (trim email) \<mapsto>
       \<lparr>otpHash = bhash otp 10, expiresAt = t1 + OTP_EXPIRATION_MS, attempts = 0,
        createdAt = t2, lastAttemptAt = None\<rparr>))"
    using assms(2) by (simp add: storeOTP_fresh)
  then show ?thesis using v assms(1) by simp
qed

lemma five_wrong_example:
  "verifyOTP_calls plain_compare issued_store ''a@b.com'' (replicate 5 (''000000'', 1, 1)) =
     (replicate 5 Invalid, exhausted_store)"
proof -
  let ?r = "\<lparr>otpHash = ''$plain$482193'', expiresAt = 300000, attempts = 0, createdAt = 0,
      lastAttemptAt = None\<rparr>"
  have "verifyOTP_calls plain_compare issued_store ''a@b.com'' (replicate 5 (''000000'', 1, 1)) =
     (replicate (length (replicate 5 (''000000'', 1::int, 1::int))) Invalid,
      if replicate 5 (''000000'', 1::int, 1::int) = [] then issued_store
      else issued_store(toLowerCase (trim ''a@b.com'') \<mapsto>
        ?r\<lparr>attempts := attempts ?r + int (length (replicate 5 (''000000'', 1::int, 1::int))),
            lastAttemptAt := Some (snd (snd (last (replicate 5 (''000000'', 1::int, 1::int)))))\<rparr>))"
  proof (rule verifyOTP_calls_wrong)
    show "isValidEmail ''a@b.com''" using example_email by simp
    show "issued_store (toLowerCase (trim ''a@b.com'')) = Some ?r"
      by (simp add: example_email issued_store_def)
    show "attempts ?r + int (length (replicate 5 (''000000'', 1::int, 1::int)))
            \<le> MAX_VERIFICATION_ATTEMPTS"
      by (simp add: MAX_VERIFICATION_ATTEMPTS_def)
    show "\<forall>(otp, now1, now2) \<in> set (replicate 5 (''000000'', 1::int, 1::int)).
           isValidOTPFormat otp \<and> \<not> plain_compare otp (otpHash ?r) \<and> \<not> now1 > expiresAt ?r"
      using example_codes by (simp add: plain_compare_def)
  qed
  then show ?thesis
    by (simp add: example_email issued_store_def exhausted_store_def)
qed

lemma exhausted_lookup:
  "exhausted_store ''a@b.com'' = Some \<lparr>otpHash = ''$plain$482193'', expiresAt = 300000,
     attempts = 5, createdAt = 0, lastAttemptAt = Some 1\<rparr>"
  by (simp add: exhausted_store_def)

lemma issued_lookup:
  "issued_store ''a@b.com'' = Some \<lparr>otpHash = ''$plain$482193'', expiresAt = 300000,
     attempts = 0, createdAt = 0, lastAttemptAt = None\<rparr>"
  by (simp add: issued_store_def)

lemma outcomes_distinct:
  "Valid \<noteq> NotFound" "Valid \<noteq> Expired" "Valid \<noteq> AttemptsExceeded" "Valid \<noteq> Invalid"
  "NotFound \<noteq> Expired" "NotFound \<noteq> AttemptsExceeded" "NotFound \<noteq> Invalid"
  "Expired \<noteq> AttemptsExceeded" "Expired \<noteq> Invalid" "AttemptsExceeded \<noteq> Invalid"
  by (simp_all add: Valid_def NotFound_def Expired_def AttemptsExceeded_def Invalid_def)

lemma verifyOTP_cases:
  assumes "isValidEmail email" and "isValidOTPFormat otp"
  shows "verifyOTP bcompare now1 now2 store email otp =
     (case store (toLowerCase (trim email)) of
        None \<Rightarrow> \<lparr>outcome = NotFound, store_after = store, compare_calls = [(otp, dummyHash)]\<rparr>
      | Some stored \<Rightarrow>
          if now1 > expiresAt stored then
            \<lparr>outcome = Expired, store_after = store(toLowerCase (trim email) := None),
             compare_calls = [(otp, dummyHash)]\<rparr>
          else if attempts stored \<ge> MAX_VERIFICATION_ATTEMPTS then
            \<lparr>outcome = AttemptsExceeded, store_after = store(toLowerCase (trim email) := None),
             compare_calls = []\<rparr>
          else if bcompare otp (otpHash stored) then
            \<lparr>outcome = Valid, store_after = store(toLowerCase (trim email) := None),
             compare_calls = [(otp, otpHash stored)]\<rparr>
          else
            \<lparr>outcome = Invalid,
             store_after = store(toLowerCase (trim email) \<mapsto>
               stored\<lparr>attempts := attempts stored + 1, lastAttemptAt := Some now2\<rparr>),
             compare_calls = [(otp, otpHash stored)]\<rparr>)"
  using assms
  by (simp add: verifyOTP_absent verifyOTP_expired verifyOTP_exceeded verifyOTP_match
      verifyOTP_mismatch split: option.splits)

section \<open>The claims\<close>

text \<open>
  Claim C8. Every call of the code generator returns a string of exactly
  \<open>OTP_LENGTH = 6\<close> decimal digits whose numeric value lies in
  \<open>[10 ^ (OTP_LENGTH - 1), 10 ^ OTP_LENGTH - 1]\<close>, that is \<open>[100000, 999999]\<close>,
  whatever the random source draws within its contract; the code has the format
  \<^verbatim>\<open>storeOTP\<close> and \<^verbatim>\<open>verifyOTP\<close> accept.
\<close>

theorem generateOTP_six_digits:
  assumes "\<forall>lo hi. lo < hi \<longrightarrow> lo \<le> randomInt lo hi \<and> randomInt lo hi < hi"
  shows "length (generateOTP randomInt) = OTP_LENGTH \<and>
         list_all isDigit (generateOTP randomInt) \<and>
         10 ^ (OTP_LENGTH - 1) \<le> parseDecimal (generateOTP randomInt) \<and>
         parseDecimal (generateOTP randomInt) \<le> 10 ^ OTP_LENGTH - 1 \<and>
         100000 \<le> parseDecimal (generateOTP randomInt) \<and>
         parseDecimal (generateOTP randomInt) \<le> 999999 \<and>
         isValidOTPFormat (generateOTP randomInt)"
proof -
  define r where "r = randomInt 100000 1000000"
  have r: "100000 \<le> r" "r < 1000000" using assms by (simp_all add: r_def)
  have len: "length (toString r) = 6" using r by (rule length_toString_six)
  have g: "generateOTP randomInt = toString r"
    using len by (simp add: generateOTP_def padStart_def OTP_LENGTH_def r_def)
  have ne: "toString r \<noteq> []" using len by auto
  show ?thesis using r ne
    by (simp add: g len OTP_LENGTH_def toString_digits parseDecimal_toString isValidOTPFormat_def)
qed

theorem generateOTP_six_digits_witness:
  "generateOTP lowest_randomInt = ''100000'' \<and>
   length (generateOTP lowest_randomInt) = OTP_LENGTH \<and>
   list_all isDigit (generateOTP lowest_randomInt) \<and>
   100000 \<le> parseDecimal (generateOTP lowest_randomInt) \<and>
   parseDecimal (generateOTP lowest_randomInt) \<le> 999999"
proof -
  have c: "\<forall>lo hi. lo < hi \<longrightarrow> lo \<le> lowest_randomInt lo hi \<and> lowest_randomInt lo hi < hi"
    by (simp add: lowest_randomInt_def)
  have "toString 100000 = ''100000''"
    by (simp add: toString.simps [of 100000] toString.simps [of 10000] toString.simps [of 1000]
        toString.simps [of 100] toString.simps [of 10] toString.simps [of 1]
        toString.simps [of "Suc 0"] digitChar_def char_of_def bit_Suc_0_iff)
  then have "generateOTP lowest_randomInt = ''100000''"
    by (simp add: generateOTP_def lowest_randomInt_def padStart_def OTP_LENGTH_def)
  then show ?thesis using generateOTP_six_digits [OF c] by (simp add: OTP_LENGTH_def)
qed

text \<open>
  Claim C1, as the code has it. After \<^verbatim>\<open>storeOTP\<close> has issued code \<open>c1\<close>, each of
  \<open>MAX_VERIFICATION_ATTEMPTS = 5\<close> calls of \<^verbatim>\<open>verifyOTP\<close> with a well-formed wrong code
  before expiry reports \<open>Invalid\<close>, the fifth included; one further call, with the
  correct code \<open>c1\<close>, reports \<open>AttemptsExceeded\<close>, not \<open>Valid\<close>, and removes the record.
  The claim as stated (the last of the five calls reports \<open>AttemptsExceeded\<close>) fails on the
  running example, shown after the witness.
\<close>

theorem verifyOTP_budget_then_exceeded:
  assumes "storeOTP bhash t1 t2 t3 store0 email c1 = Inr store"
    and "\<not> t3 > t1 + OTP_EXPIRATION_MS"
    and "length calls = nat MAX_VERIFICATION_ATTEMPTS"
    and "\<forall>(otp, now1, now2) \<in> set calls.
           isValidOTPFormat otp \<and> \<not> bcompare otp (bhash c1 10) \<and>
           \<not> now1 > t1 + OTP_EXPIRATION_MS"
    and "bcompare c1 (bhash c1 10)"
    and "\<not> now1 > t1 + OTP_EXPIRATION_MS"
  shows "fst (verifyOTP_calls bcompare store email calls) =
           replicate (nat MAX_VERIFICATION_ATTEMPTS) Invalid \<and>
         outcome (verifyOTP bcompare now1 now2
           (snd (verifyOTP_calls bcompare store email calls)) email c1) = AttemptsExceeded \<and>
         store_after (verifyOTP bcompare now1 now2
           (snd (verifyOTP_calls bcompare store email calls)) email c1)
           (toLowerCase (trim email)) = None"
proof -
  let ?k = "toLowerCase (trim email)"
  let ?r = "\<lparr>otpHash = bhash c1 10, expiresAt = t1 + OTP_EXPIRATION_MS, attempts = 0,
        createdAt = t2, lastAttemptAt = None\<rparr>"
  let ?r' = "?r\<lparr>attempts := attempts ?r + int (length calls),
                 lastAttemptAt := Some (snd (snd (last calls)))\<rparr>"
  have f: "isValidEmail email" "isValidOTPFormat c1" "store = store0(?k \<mapsto> ?r)"
    using storeOTP_Inr_fresh [OF assms(1,2)] by simp_all
  have ne: "calls \<noteq> []" using assms(3) by (auto simp: MAX_VERIFICATION_ATTEMPTS_def)
  have "verifyOTP_calls bcompare store email calls =
           (replicate (length calls) Invalid,
            if calls = [] then store else store(?k \<mapsto> ?r'))"
  proof (rule verifyOTP_calls_wrong)
    show "isValidEmail email" by (rule f(1))
    show "store ?k = Some ?r" by (simp add: f(3))
    show "attempts ?r + int (length calls) \<le> MAX_VERIFICATION_ATTEMPTS"
      using assms(3) by (simp add: MAX_VERIFICATION_ATTEMPTS_def)
    show "\<forall>(otp, now1, now2) \<in> set calls.
           isValidOTPFormat otp \<and> \<not> bcompare otp (otpHash ?r) \<and> \<not> now1 > expiresAt ?r"
      using assms(4) by simp
  qed
  then have seq: "verifyOTP_calls bcompare store email calls =
           (replicate (nat MAX_VERIFICATION_ATTEMPTS) Invalid, store(?k \<mapsto> ?r'))"
    using ne assms(3) by simp
  have "verifyOTP bcompare now1 now2 (store(?k \<mapsto> ?r')) email c1 =
     \<lparr>outcome = AttemptsExceeded, store_after = (store(?k \<mapsto> ?r'))(?k := None),
      compare_calls = []\<rparr>"
    using f(1,2)
  proof (rule verifyOTP_exceeded)
    show "(store(?k \<mapsto> ?r')) ?k = Some ?r'" by simp
    show "\<not> now1 > expiresAt ?r'" using assms(6) by simp
    show "attempts ?r' \<ge> MAX_VERIFICATION_ATTEMPTS" using assms(3) by simp
  qed
  then show ?thesis by (simp add: seq)
qed

theorem verifyOTP_budget_then_exceeded_witness:
  "storeOTP plain_hash 0 0 0 Map.empty ''a@b.com'' ''482193'' = Inr issued_store \<and>
   fst (verifyOTP_calls plain_compare issued_store ''a@b.com'' (replicate 5 (''000000'', 1, 1))) =
     [Invalid, Invalid, Invalid, Invalid, Invalid] \<and>
   outcome (verifyOTP plain_compare 2 2
     (snd (verifyOTP_calls plain_compare issued_store ''a@b.com'' (replicate 5 (''000000'', 1, 1))))
     ''a@b.com'' ''482193'') = AttemptsExceeded \<and>
   store_after (verifyOTP plain_compare 2 2
     (snd (verifyOTP_calls plain_compare issued_store ''a@b.com'' (replicate 5 (''000000'', 1, 1))))
     ''a@b.com'' ''482193'') ''a@b.com'' = None"
proof -
  let ?calls = "replicate 5 (''000000'', 1::int, 1::int)"
  have h2: "\<not> (0::int) > 0 + OTP_EXPIRATION_MS" by (simp add: OTP_EXPIRATION_MS_def)
  have h3: "length ?calls = nat MAX_VERIFICATION_ATTEMPTS"
    by (simp add: MAX_VERIFICATION_ATTEMPTS_def)
  have h4: "\<forall>(otp, now1, now2) \<in> set ?calls.
           isValidOTPFormat otp \<and> \<not> plain_compare otp (plain_hash ''482193'' 10) \<and>
           \<not> now1 > 0 + OTP_EXPIRATION_MS"
    using example_codes example_compare by (simp add: OTP_EXPIRATION_MS_def)
  have h5: "plain_compare ''482193'' (plain_hash ''482193'' 10)" using example_compare by simp
  have h6: "\<not> (2::int) > 0 + OTP_EXPIRATION_MS" by (simp add: OTP_EXPIRATION_MS_def)
  have five: "replicate (nat MAX_VERIFICATION_ATTEMPTS) Invalid =
      [Invalid, Invalid, Invalid, Invalid, Invalid]"
    by (simp add: MAX_VERIFICATION_ATTEMPTS_def numeral_eq_Suc)
  show ?thesis
    using verifyOTP_budget_then_exceeded [where bhash = plain_hash and bcompare = plain_compare
      and ?now2.0 = 2, OF storeOTP_example h2 h3 h4 h5 h6]
    by (simp only: five example_email storeOTP_example simp_thms)
qed

theorem fifth_wrong_code_is_Invalid:
  "storeOTP plain_hash 0 0 0 Map.empty ''a@b.com'' ''482193'' = Inr issued_store \<and>
   fst (verifyOTP_calls plain_compare issued_store ''a@b.com'' (replicate 5 (''000000'', 1, 1))) ! 4
     = Invalid \<and>
   fst (verifyOTP_calls plain_compare issued_store ''a@b.com'' (replicate 5 (''000000'', 1, 1))) ! 4
     \<noteq> AttemptsExceeded"
  by (simp add: storeOTP_example five_wrong_example Invalid_def AttemptsExceeded_def)

text \<open>
  Claim C2, as the code has it. After a \<^verbatim>\<open>verifyOTP\<close> call with well-formed inputs
  returns, a record that remains stored for the identity had fewer than
  \<open>MAX_VERIFICATION_ATTEMPTS\<close> attempts before the call and has at most
  \<open>MAX_VERIFICATION_ATTEMPTS\<close> after it; a record found with
  \<open>attempts \<ge> MAX_VERIFICATION_ATTEMPTS\<close> is removed by the call, which does not report
  \<open>Valid\<close>. The claim as stated (no record with \<open>attempts \<ge> MAX_VERIFICATION_ATTEMPTS\<close>
  remains stored after a call) fails after the fifth wrong code of
  the running example, shown after the witness.
\<close>

theorem verifyOTP_attempts_bounded:
  assumes "isValidEmail email" and "isValidOTPFormat otp"
  shows "(\<forall>stored'. store_after (verifyOTP bcompare now1 now2 store email otp)
             (toLowerCase (trim email)) = Some stored' \<longrightarrow>
           (\<exists>stored. store (toLowerCase (trim email)) = Some stored \<and>
              attempts stored < MAX_VERIFICATION_ATTEMPTS) \<and>
           attempts stored' \<le> MAX_VERIFICATION_ATTEMPTS) \<and>
         (\<forall>stored. store (toLowerCase (trim email)) = Some stored \<and>
             attempts stored \<ge> MAX_VERIFICATION_ATTEMPTS \<longrightarrow>
           store_after (verifyOTP bcompare now1 now2 store email otp)
             (toLowerCase (trim email)) = None \<and>
           \<not> valid (outcome (verifyOTP bcompare now1 now2 store email otp)))"
  using assms by (auto simp: verifyOTP_def Let_def split: option.splits if_splits)

theorem verifyOTP_attempts_bounded_witness:
  "isValidEmail ''a@b.com'' \<and> isValidOTPFormat ''482193'' \<and>
   attempts \<lparr>otpHash = ''$plain$482193'', expiresAt = 300000, attempts = 5, createdAt = 0,
     lastAttemptAt = Some 1\<rparr> \<ge> MAX_VERIFICATION_ATTEMPTS \<and>
   store_after (verifyOTP plain_compare 2 2 exhausted_store ''a@b.com'' ''482193'') ''a@b.com'' = None \<and>
   \<not> valid (outcome (verifyOTP plain_compare 2 2 exhausted_store ''a@b.com'' ''482193''))"
  using verifyOTP_attempts_bounded [where email = "''a@b.com''" and otp = "''482193''"
      and store = exhausted_store and bcompare = plain_compare and ?now1.0 = 2 and ?now2.0 = 2]
    example_email example_codes exhausted_lookup
  by (simp add: MAX_VERIFICATION_ATTEMPTS_def)

theorem exhausted_record_stays_stored:
  "snd (verifyOTP_calls plain_compare issued_store ''a@b.com'' (replicate 5 (''000000'', 1, 1)))
     ''a@b.com'' =
     Some \<lparr>otpHash = ''$plain$482193'', expiresAt = 300000, attempts = 5, createdAt = 0,
       lastAttemptAt = Some 1\<rparr> \<and>
   (5::int) \<ge> MAX_VERIFICATION_ATTEMPTS"
  by (simp add: five_wrong_example exhausted_lookup MAX_VERIFICATION_ATTEMPTS_def)

text \<open>
  Claim C3. For a code freshly stored by \<^verbatim>\<open>storeOTP\<close> and not expired, a \<^verbatim>\<open>verifyOTP\<close>
  call with the correct code reports \<open>Valid\<close> and removes the record, and a following
  call with the same email and code reports \<open>NotFound\<close>. That
  \<^verbatim>\<open>bcrypt.compare\<close> accepts a code against the hash \<^verbatim>\<open>bcrypt.hash\<close> made of it is a
  hypothesis on the library.
\<close>

theorem verifyOTP_correct_code_single_use:
  assumes "storeOTP bhash t1 t2 t3 store0 email otp = Inr store"
    and "\<not> t3 > t1 + OTP_EXPIRATION_MS"
    and "bcompare otp (bhash otp 10)"
    and "\<not> now1 > t1 + OTP_EXPIRATION_MS"
  shows "outcome (verifyOTP bcompare now1 now2 store email otp) = Valid \<and>
         store_after (verifyOTP bcompare now1 now2 store email otp) (toLowerCase (trim email)) = None \<and>
         outcome (verifyOTP bcompare now1' now2'
           (store_after (verifyOTP bcompare now1 now2 store email otp)) email otp) = NotFound"
proof -
  let ?k = "toLowerCase (trim email)"
  let ?r = "\<lparr>otpHash = bhash otp 10, expiresAt = t1 + OTP_EXPIRATION_MS, attempts = 0,
        createdAt = t2, lastAttemptAt = None\<rparr>"
  have f: "isValidEmail email" "isValidOTPFormat otp" "store = store0(?k \<mapsto> ?r)"
    using storeOTP_Inr_fresh [OF assms(1,2)] by simp_all
  have look: "store ?k = Some ?r" by (simp add: f(3))
  have run: "verifyOTP bcompare now1 now2 store email otp =
     \<lparr>outcome = Valid, store_after = store(?k := None), compare_calls = [(otp, otpHash ?r)]\<rparr>"
    using f(1,2) look
  proof (rule verifyOTP_match)
    show "\<not> now1 > expiresAt ?r" using assms(4) by simp
    show "attempts ?r < MAX_VERIFICATION_ATTEMPTS" by (simp add: MAX_VERIFICATION_ATTEMPTS_def)
    show "bcompare otp (otpHash ?r)" using assms(3) by simp
  qed
  have "verifyOTP bcompare now1' now2' (store(?k := None)) email otp =
     \<lparr>outcome = NotFound, store_after = store(?k := None), compare_calls = [(otp, dummyHash)]\<rparr>"
    using f(1,2) by (rule verifyOTP_absent) simp
  then show ?thesis by (simp add: run)
qed

theorem verifyOTP_correct_code_single_use_witness:
  "storeOTP plain_hash 0 0 0 Map.empty ''a@b.com'' ''482193'' = Inr issued_store \<and>
   outcome (verifyOTP plain_compare 1 1 issued_store ''a@b.com'' ''482193'') = Valid \<and>
   store_after (verifyOTP plain_compare 1 1 issued_store ''a@b.com'' ''482193'') ''a@b.com'' = None \<and>
   outcome (verifyOTP plain_compare 2 2
     (store_after (verifyOTP plain_compare 1 1 issued_store ''a@b.com'' ''482193''))
     ''a@b.com'' ''482193'') = NotFound"
  using verifyOTP_correct_code_single_use [where bhash = plain_hash and bcompare = plain_compare
      and ?t1.0 = 0 and ?t2.0 = 0 and ?t3.0 = 0 and ?store0.0 = Map.empty
      and email = "''a@b.com''" and otp = "''482193''" and store = issued_store
      and ?now1.0 = 1 and ?now2.0 = 1 and now1' = 2 and now2' = 2]
  by (simp add: storeOTP_example example_email example_compare OTP_EXPIRATION_MS_def)

text \<open>
  Claim C4, as the code has it. For a stored record and well-formed inputs, a
  \<^verbatim>\<open>verifyOTP\<close> call at a clock reading strictly after \<open>expiresAt\<close> deletes the record
  and reports \<open>Expired\<close>. At the instant \<open>expiresAt\<close> itself the record is still live:
  the call reports neither \<open>Expired\<close> nor \<open>NotFound\<close>, it does what the budget check
  and the comparison decide (\<open>AttemptsExceeded\<close> on a spent budget, \<open>Valid\<close> with the
  record removed on a match, \<open>Invalid\<close> with the record kept and its attempts
  incremented on a mismatch), and it is the same run as at any clock reading up to
  \<open>expiresAt\<close>. The claim as stated (expired from \<open>now = expiresAt\<close> on) fails at that
  instant, shown after the witness.
\<close>

theorem verifyOTP_expired_strictly_after:
  assumes "isValidEmail email" and "isValidOTPFormat otp"
    and "store (toLowerCase (trim email)) = Some stored"
  shows "(now1 > expiresAt stored \<longrightarrow>
            outcome (verifyOTP bcompare now1 now2 store email otp) = Expired \<and>
            store_after (verifyOTP bcompare now1 now2 store email otp)
              (toLowerCase (trim email)) = None) \<and>
         (now1 = expiresAt stored \<longrightarrow>
            outcome (verifyOTP bcompare now1 now2 store email otp) \<noteq> Expired \<and>
            outcome (verifyOTP bcompare now1 now2 store email otp) \<noteq> NotFound \<and>
            verifyOTP bcompare now1 now2 store email otp =
              (if attempts stored \<ge> MAX_VERIFICATION_ATTEMPTS then
                 \<lparr>outcome = AttemptsExceeded,
                  store_after = store(toLowerCase (trim email) := None),
                  compare_calls = []\<rparr>
               else if bcompare otp (otpHash stored) then
                 \<lparr>outcome = Valid,
                  store_after = store(toLowerCase (trim email) := None),
                  compare_calls = [(otp, otpHash stored)]\<rparr>
               else
                 \<lparr>outcome = Invalid,
                  store_after = store(toLowerCase (trim email) \<mapsto>
                    stored\<lparr>attempts := attempts stored + 1, lastAttemptAt := Some now2\<rparr>),
                  compare_calls = [(otp, otpHash stored)]\<rparr>) \<and>
            (\<forall>now0. now0 \<le> expiresAt stored \<longrightarrow>
               verifyOTP bcompare now1 now2 store email otp =
               verifyOTP bcompare now0 now2 store email otp))"
proof -
  have c: "\<And>t. verifyOTP bcompare t now2 store email otp =
     (if t > expiresAt stored then
        \<lparr>outcome = Expired, store_after = store(toLowerCase (trim email) := None),
         compare_calls = [(otp, dummyHash)]\<rparr>
      else if attempts stored \<ge> MAX_VERIFICATION_ATTEMPTS then
        \<lparr>outcome = AttemptsExceeded, store_after = store(toLowerCase (trim email) := None),
         compare_calls = []\<rparr>
      else if bcompare otp (otpHash stored) then
        \<lparr>outcome = Valid, store_after = store(toLowerCase (trim email) := None),
         compare_calls = [(otp, otpHash stored)]\<rparr>
      else
        \<lparr>outcome = Invalid,
         store_after = store(toLowerCase (trim email) \<mapsto>
           stored\<lparr>attempts := attempts stored + 1, lastAttemptAt := Some now2\<rparr>),
         compare_calls = [(otp, otpHash stored)]\<rparr>)"
    by (simp add: verifyOTP_cases [OF assms(1,2)] assms(3))
  have late: "now1 > expiresAt stored \<longrightarrow>
            outcome (verifyOTP bcompare now1 now2 store email otp) = Expired \<and>
            store_after (verifyOTP bcompare now1 now2 store email otp)
              (toLowerCase (trim email)) = None"
    by (simp add: c)
  have inst: "now1 = expiresAt stored \<longrightarrow>
            outcome (verifyOTP bcompare now1 now2 store email otp) \<noteq> Expired \<and>
            outcome (verifyOTP bcompare now1 now2 store email otp) \<noteq> NotFound"
    by (simp add: c outcomes_distinct outcomes_distinct [symmetric])
  have live: "now1 = expiresAt stored \<longrightarrow>
            verifyOTP bcompare now1 now2 store email otp =
              (if attempts stored \<ge> MAX_VERIFICATION_ATTEMPTS then
                 \<lparr>outcome = AttemptsExceeded,
                  store_after = store(toLowerCase (trim email) := None),
                  compare_calls = []\<rparr>
               else if bcompare otp (otpHash stored) then
                 \<lparr>outcome = Valid,
                  store_after = store(toLowerCase (trim email) := None),
                  compare_calls = [(otp, otpHash stored)]\<rparr>
               else
                 \<lparr>outcome = Invalid,
                  store_after = store(toLowerCase (trim email) \<mapsto>
                    stored\<lparr>attempts := attempts stored + 1, lastAttemptAt := Some now2\<rparr>),
                  compare_calls = [(otp, otpHash stored)]\<rparr>)"
    by (simp add: c)
  have same: "now1 = expiresAt stored \<longrightarrow>
            (\<forall>now0. now0 \<le> expiresAt stored \<longrightarrow>
               verifyOTP bcompare now1 now2 store email otp =
               verifyOTP bcompare now0 now2 store email otp)"
    by (simp add: c)
  show ?thesis using late inst live same by blast
qed

theorem verifyOTP_expired_strictly_after_witness:
  "isValidEmail ''a@b.com'' \<and> isValidOTPFormat ''482193'' \<and>
   (300001::int) > 300000 \<and>
   outcome (verifyOTP plain_compare 300001 300001 issued_store ''a@b.com'' ''482193'') = Expired \<and>
   store_after (verifyOTP plain_compare 300001 300001 issued_store ''a@b.com'' ''482193'')
     ''a@b.com'' = None \<and>
   outcome (verifyOTP plain_compare 300000 300000 issued_store ''a@b.com'' ''482193'') = Valid \<and>
   outcome (verifyOTP plain_compare 300000 300000 issued_store ''a@b.com'' ''482193'') \<noteq> Expired \<and>
   verifyOTP plain_compare 300000 300000 issued_store ''a@b.com'' ''482193'' =
     verifyOTP plain_compare 1 300000 issued_store ''a@b.com'' ''482193''"
proof -
  let ?r = "\<lparr>otpHash = ''$plain$482193'', expiresAt = 300000,
     attempts = 0, createdAt = 0, lastAttemptAt = None\<rparr>"
  have v: "isValidEmail ''a@b.com''" "isValidOTPFormat ''482193''"
    using example_email example_codes by simp_all
  have l: "issued_store (toLowerCase (trim ''a@b.com'')) = Some ?r"
    by (simp add: example_email issued_lookup)
  have late: "outcome (verifyOTP plain_compare 300001 300001 issued_store ''a@b.com'' ''482193'')
      = Expired \<and>
    store_after (verifyOTP plain_compare 300001 300001 issued_store ''a@b.com'' ''482193'')
      ''a@b.com'' = None"
    using verifyOTP_expired_strictly_after [where email = "''a@b.com''" and otp = "''482193''"
        and store = issued_store and bcompare = plain_compare and ?now1.0 = 300001
        and ?now2.0 = 300001, OF v l]
    by (simp add: example_email)
  have at: "(300000::int) = expiresAt ?r" by simp
  note inst = verifyOTP_expired_strictly_after [where email = "''a@b.com''" and otp = "''482193''"
        and store = issued_store and bcompare = plain_compare and ?now1.0 = 300000
        and ?now2.0 = 300000, OF v l, THEN conjunct2, THEN mp, OF at]
  have ne: "outcome (verifyOTP plain_compare 300000 300000 issued_store ''a@b.com'' ''482193'')
      \<noteq> Expired"
    by (rule inst [THEN conjunct1])
  have run: "outcome (verifyOTP plain_compare 300000 300000 issued_store ''a@b.com'' ''482193'')
      = Valid"
    by (simp add: inst [THEN conjunct2, THEN conjunct2, THEN conjunct1]
        MAX_VERIFICATION_ATTEMPTS_def plain_compare_def)
  have "(1::int) \<le> expiresAt ?r \<longrightarrow>
     verifyOTP plain_compare 300000 300000 issued_store ''a@b.com'' ''482193'' =
     verifyOTP plain_compare 1 300000 issued_store ''a@b.com'' ''482193''"
    by (rule inst [THEN conjunct2, THEN conjunct2, THEN conjunct2, THEN spec])
  then have same: "verifyOTP plain_compare 300000 300000 issued_store ''a@b.com'' ''482193'' =
     verifyOTP plain_compare 1 300000 issued_store ''a@b.com'' ''482193''"
    by simp
  show ?thesis using v late run ne same by simp
qed

theorem verifyOTP_at_expiry_instant:
  "issued_store ''a@b.com'' = Some \<lparr>otpHash = ''$plain$482193'', expiresAt = 300000,
     attempts = 0, createdAt = 0, lastAttemptAt = None\<rparr> \<and>
   outcome (verifyOTP plain_compare 300000 300000 issued_store ''a@b.com'' ''000000'') = Invalid \<and>
   outcome (verifyOTP plain_compare 300000 300000 issued_store ''a@b.com'' ''000000'') \<noteq> Expired \<and>
   store_after (verifyOTP plain_compare 300000 300000 issued_store ''a@b.com'' ''000000'')
     ''a@b.com'' = Some \<lparr>otpHash = ''$plain$482193'', expiresAt = 300000,
     attempts = 1, createdAt = 0, lastAttemptAt = Some 300000\<rparr>"
proof -
  let ?r = "\<lparr>otpHash = ''$plain$482193'', expiresAt = 300000,
     attempts = 0, createdAt = 0, lastAttemptAt = None\<rparr>"
  have "verifyOTP plain_compare 300000 300000 issued_store ''a@b.com'' ''000000'' =
     \<lparr>outcome = Invalid,
      store_after = issued_store(toLowerCase (trim ''a@b.com'') \<mapsto>
        ?r\<lparr>attempts := attempts ?r + 1, lastAttemptAt := Some 300000\<rparr>),
      compare_calls = [(''000000'', otpHash ?r)]\<rparr>"
  proof (rule verifyOTP_mismatch)
    show "isValidEmail ''a@b.com''" using example_email by simp
    show "isValidOTPFormat ''000000''" using example_codes by simp
    show "issued_store (toLowerCase (trim ''a@b.com'')) = Some ?r"
      by (simp add: example_email issued_lookup)
    show "\<not> 300000 > expiresAt ?r" by simp
    show "attempts ?r < MAX_VERIFICATION_ATTEMPTS" by (simp add: MAX_VERIFICATION_ATTEMPTS_def)
    show "\<not> plain_compare ''000000'' (otpHash ?r)" by (simp add: plain_compare_def)
  qed
  then show ?thesis
    by (simp add: issued_lookup example_email Invalid_def Expired_def)
qed

text \<open>
  Claim C5, as the code has it. For an identity whose record's ttl has elapsed and
  whose record is still stored, \<^verbatim>\<open>getOTPInfo\<close> reports the record's metadata with
  \<open>isExpired = true\<close>, not absent; it reports absent once the cleanup timer has run or
  a \<^verbatim>\<open>verifyOTP\<close> call with well-formed inputs has touched the record. The claim as
  stated (absent even if neither has happened) fails on the running example, shown after
  the witness.
\<close>

theorem getOTPInfo_expired_record:
  assumes "isValidEmail email" and "isValidOTPFormat otp"
    and "store (toLowerCase (trim email)) = Some stored"
    and "now > expiresAt stored"
  shows "getOTPInfo now store email =
           Some \<lparr>info_email = toLowerCase (trim email),
                 info_expiresAt = expiresAt stored,
                 info_attempts = attempts stored,
                 info_remainingAttempts = MAX_VERIFICATION_ATTEMPTS - attempts stored,
                 info_isExpired = True,
                 info_createdAt = createdAt stored,
                 info_lastAttemptAt = lastAttemptAt stored\<rparr> \<and>
         getOTPInfo now (cleanupTick now store) email = None \<and>
         getOTPInfo now (store_after (verifyOTP bcompare now now2 store email otp)) email = None"
  using assms by (simp add: getOTPInfo_def cleanupTick_def verifyOTP_expired)

theorem getOTPInfo_expired_record_witness:
  "isValidEmail ''a@b.com'' \<and> isValidOTPFormat ''482193'' \<and> (600000::int) > 300000 \<and>
   getOTPInfo 600000 issued_store ''a@b.com'' =
     Some \<lparr>info_email = ''a@b.com'', info_expiresAt = 300000, info_attempts = 0,
           info_remainingAttempts = 5, info_isExpired = True, info_createdAt = 0,
           info_lastAttemptAt = None\<rparr> \<and>
   getOTPInfo 600000 (cleanupTick 600000 issued_store) ''a@b.com'' = None \<and>
   getOTPInfo 600000
     (store_after (verifyOTP plain_compare 600000 600000 issued_store ''a@b.com'' ''482193''))
     ''a@b.com'' = None"
  using getOTPInfo_expired_record [where email = "''a@b.com''" and otp = "''482193''"
      and store = issued_store and now = 600000 and bcompare = plain_compare and ?now2.0 = 600000]
    example_email example_codes issued_lookup
  by (simp add: MAX_VERIFICATION_ATTEMPTS_def)

theorem getOTPInfo_reports_unswept_record:
  "issued_store ''a@b.com'' = Some \<lparr>otpHash = ''$plain$482193'', expiresAt = 300000,
     attempts = 0, createdAt = 0, lastAttemptAt = None\<rparr> \<and>
   (600000::int) > 300000 \<and>
   getOTPInfo 600000 issued_store ''a@b.com'' =
     Some \<lparr>info_email = ''a@b.com'', info_expiresAt = 300000, info_attempts = 0,
           info_remainingAttempts = 5, info_isExpired = True, info_createdAt = 0,
           info_lastAttemptAt = None\<rparr> \<and>
   getOTPInfo 600000 issued_store ''a@b.com'' \<noteq> None"
  using example_email
  by (simp add: getOTPInfo_def issued_lookup MAX_VERIFICATION_ATTEMPTS_def)




text \<open>
  Claim C7, as the code has it. For a valid email and a well-formed code, when the
  clock reading of the cleanup check after hashing is not later than the new
  \<open>expiresAt\<close>, \<^verbatim>\<open>storeOTP\<close> succeeds and leaves the store mapping the normalized email
  to one record with \<open>attempts = 0\<close> and \<open>expiresAt\<close> the first clock reading plus
  \<open>OTP_EXPIRATION_MS\<close>, in place of any prior record, and every other key as it was.
  The claim as stated (the cleanup branch never deletes the fresh record) fails when that
  clock reading is later, shown after the witness.
\<close>

theorem storeOTP_stores_fresh_record:
  assumes "isValidEmail email" and "isValidOTPFormat otp"
    and "\<not> now3 > now1 + OTP_EXPIRATION_MS"
  shows "\<exists>store'. storeOTP bhash now1 now2 now3 store email otp = Inr store' \<and>
           store' (toLowerCase (trim email)) =
             Some \<lparr>otpHash = bhash otp 10, expiresAt = now1 + OTP_EXPIRATION_MS, attempts = 0,
                   createdAt = now2, lastAttemptAt = None\<rparr> \<and>
           (\<forall>other. other \<noteq> toLowerCase (trim email) \<longrightarrow> store' other = store other)"
  using assms by (simp add: storeOTP_fresh)

theorem storeOTP_stores_fresh_record_witness:
  "isValidEmail ''a@b.com'' \<and> isValidOTPFormat ''482193'' \<and>
   \<not> (0::int) > 0 + OTP_EXPIRATION_MS \<and>
   (\<exists>store'. storeOTP plain_hash 0 0 0 exhausted_store ''a@b.com'' ''482193'' = Inr store' \<and>
      store' ''a@b.com'' =
        Some \<lparr>otpHash = ''$plain$482193'', expiresAt = 300000, attempts = 0,
              createdAt = 0, lastAttemptAt = None\<rparr>)"
  using storeOTP_stores_fresh_record [where email = "''a@b.com''" and otp = "''482193''"
      and ?now1.0 = 0 and ?now2.0 = 0 and ?now3.0 = 0 and bhash = plain_hash
      and store = exhausted_store]
    example_email example_codes
  by (auto simp: OTP_EXPIRATION_MS_def plain_hash_def)

theorem storeOTP_cleanup_deletes_fresh_record:
  "isValidEmail ''a@b.com'' \<and> isValidOTPFormat ''482193'' \<and>
   storeOTP plain_hash 0 0 300001 Map.empty ''a@b.com'' ''482193'' = Inr Map.empty"
  using example_email example_codes
  by (simp add: storeOTP_def Let_def OTP_EXPIRATION_MS_def)

text \<open>
  Claim C9. The result of \<^verbatim>\<open>getOTPInfo\<close> has no field for the hash (the type
  \<open>otp_info\<close>), and it is the same for any two stores whose records for the identity
  agree in every field but \<open>otpHash\<close>.
\<close>

theorem getOTPInfo_independent_of_otpHash:
  assumes "map_option (\<lambda>stored. stored\<lparr>otpHash := []\<rparr>) (store1 (toLowerCase (trim email))) =
           map_option (\<lambda>stored. stored\<lparr>otpHash := []\<rparr>) (store2 (toLowerCase (trim email)))"
  shows "getOTPInfo now store1 email = getOTPInfo now store2 email"
proof (cases "store1 (toLowerCase (trim email))")
  case None
  then have "store2 (toLowerCase (trim email)) = None" using assms by simp
  then show ?thesis using None by (simp add: getOTPInfo_def)
next
  case (Some r1)
  then obtain r2 where r2: "store2 (toLowerCase (trim email)) = Some r2"
    and eq: "r1\<lparr>otpHash := []\<rparr> = r2\<lparr>otpHash := []\<rparr>"
    using assms by (cases "store2 (toLowerCase (trim email))") auto
  have "expiresAt r1 = expiresAt r2 \<and> attempts r1 = attempts r2 \<and>
        createdAt r1 = createdAt r2 \<and> lastAttemptAt r1 = lastAttemptAt r2"
    using eq by (cases r1, cases r2) simp
  then show ?thesis using Some r2 by (simp add: getOTPInfo_def)
qed

theorem getOTPInfo_independent_of_otpHash_witness:
  "map_option (\<lambda>stored. stored\<lparr>otpHash := []\<rparr>) (issued_store ''a@b.com'') =
   map_option (\<lambda>stored. stored\<lparr>otpHash := []\<rparr>)
     ((issued_store(''a@b.com'' \<mapsto>
        \<lparr>otpHash = ''$plain$000000'', expiresAt = 300000, attempts = 0, createdAt = 0,
         lastAttemptAt = None\<rparr>)) ''a@b.com'') \<and>
   getOTPInfo 1 issued_store ''a@b.com'' =
   getOTPInfo 1 (issued_store(''a@b.com'' \<mapsto>
        \<lparr>otpHash = ''$plain$000000'', expiresAt = 300000, attempts = 0, createdAt = 0,
         lastAttemptAt = None\<rparr>)) ''a@b.com'' \<and>
   getOTPInfo 1 issued_store ''a@b.com'' =
     Some \<lparr>info_email = ''a@b.com'', info_expiresAt = 300000, info_attempts = 0,
           info_remainingAttempts = 5, info_isExpired = False, info_createdAt = 0,
           info_lastAttemptAt = None\<rparr>"
proof -
  have h: "map_option (\<lambda>stored. stored\<lparr>otpHash := []\<rparr>)
             (issued_store (toLowerCase (trim ''a@b.com''))) =
           map_option (\<lambda>stored. stored\<lparr>otpHash := []\<rparr>)
             ((issued_store(''a@b.com'' \<mapsto>
                \<lparr>otpHash = ''$plain$000000'', expiresAt = 300000, attempts = 0, createdAt = 0,
                 lastAttemptAt = None\<rparr>)) (toLowerCase (trim ''a@b.com'')))"
    by (simp add: example_email issued_lookup)
  have v: "getOTPInfo 1 issued_store ''a@b.com'' =
     Some \<lparr>info_email = ''a@b.com'', info_expiresAt = 300000, info_attempts = 0,
           info_remainingAttempts = 5, info_isExpired = False, info_createdAt = 0,
           info_lastAttemptAt = None\<rparr>"
    using example_email by (simp add: getOTPInfo_def issued_lookup MAX_VERIFICATION_ATTEMPTS_def)
  show ?thesis
    using getOTPInfo_independent_of_otpHash [where ?store1.0 = issued_store
        and ?store2.0 = "issued_store(''a@b.com'' \<mapsto>
          \<lparr>otpHash = ''$plain$000000'', expiresAt = 300000, attempts = 0, createdAt = 0,
           lastAttemptAt = None\<rparr>)"
        and email = "''a@b.com''" and now = 1, OF h] h v
    by (simp only: example_email simp_thms)
qed

text \<open>
  Claim C10. For all strings \<open>email\<close> and \<open>otp\<close>, malformed ones included, \<^verbatim>\<open>verifyOTP\<close>
  returns a result object: \<open>{valid: true}\<close>, or \<open>valid = false\<close> with one of six reasons,
  by the branch taken; \<open>valid\<close> is true exactly when the inputs are well-formed and the
  record is present, not expired, within its budget and \<^verbatim>\<open>bcrypt.compare\<close> accepts the
  code against the stored hash. The model has no branch that throws, as the source has
  none.
\<close>

theorem verifyOTP_structured_result:
  "(let run = verifyOTP bcompare now1 now2 store email otp in
      (outcome run = \<lparr>valid = True, reason = None\<rparr> \<or>
       valid (outcome run) = False \<and>
       reason (outcome run) \<in> set [Some ''Invalid email format'', Some ''Invalid OTP format'',
         Some ''OTP not found or expired'', Some ''OTP expired'',
         Some ''Maximum verification attempts exceeded'', Some ''Invalid OTP'']) \<and>
      (valid (outcome run) \<longleftrightarrow>
         isValidEmail email \<and> isValidOTPFormat otp \<and>
         (\<exists>stored. store (toLowerCase (trim email)) = Some stored \<and>
            \<not> now1 > expiresAt stored \<and> attempts stored < MAX_VERIFICATION_ATTEMPTS \<and>
            bcompare otp (otpHash stored))) \<and>
      outcome run =
        (if \<not> isValidEmail email then \<lparr>valid = False, reason = Some ''Invalid email format''\<rparr>
         else if \<not> isValidOTPFormat otp then \<lparr>valid = False, reason = Some ''Invalid OTP format''\<rparr>
         else case store (toLowerCase (trim email)) of
                None \<Rightarrow> NotFound
              | Some stored \<Rightarrow>
                  if now1 > expiresAt stored then Expired
                  else if attempts stored \<ge> MAX_VERIFICATION_ATTEMPTS then AttemptsExceeded
                  else if bcompare otp (otpHash stored) then Valid
                  else Invalid))"
  by (auto simp: verifyOTP_def Let_def Valid_def NotFound_def Expired_def AttemptsExceeded_def
      Invalid_def split: option.splits)

theorem verifyOTP_structured_result_witness:
  "outcome (verifyOTP plain_compare 1 1 issued_store ''not an email'' ''482193'') =
     \<lparr>valid = False, reason = Some ''Invalid email format''\<rparr> \<and>
   outcome (verifyOTP plain_compare 1 1 issued_store ''a@b.com'' ''48219'') =
     \<lparr>valid = False, reason = Some ''Invalid OTP format''\<rparr> \<and>
   valid (outcome (verifyOTP plain_compare 1 1 issued_store ''a@b.com'' ''482193''))"
proof -
  have e: "\<not> isValidEmail ''not an email''" by code_simp
  have o: "\<not> isValidOTPFormat ''48219''" by (simp add: isValidOTPFormat_def)
  have m: "\<exists>stored. issued_store (toLowerCase (trim ''a@b.com'')) = Some stored \<and>
            \<not> 1 > expiresAt stored \<and> attempts stored < MAX_VERIFICATION_ATTEMPTS \<and>
            plain_compare ''482193'' (otpHash stored)"
    by (simp add: example_email issued_lookup MAX_VERIFICATION_ATTEMPTS_def plain_compare_def)
  have r1: "outcome (verifyOTP plain_compare 1 1 issued_store ''not an email'' ''482193'') =
     \<lparr>valid = False, reason = Some ''Invalid email format''\<rparr>"
    using verifyOTP_structured_result
      [of plain_compare 1 1 issued_store "''not an email''" "''482193''"] e
    by (simp add: Let_def)
  have r2: "outcome (verifyOTP plain_compare 1 1 issued_store ''a@b.com'' ''48219'') =
     \<lparr>valid = False, reason = Some ''Invalid OTP format''\<rparr>"
    using verifyOTP_structured_result
      [of plain_compare 1 1 issued_store "''a@b.com''" "''48219''"] o example_email
    by (simp add: Let_def)
  have r3: "valid (outcome (verifyOTP plain_compare 1 1 issued_store ''a@b.com'' ''482193''))"
    using verifyOTP_structured_result
      [of plain_compare 1 1 issued_store "''a@b.com''" "''482193''"] m example_email example_codes
    by (simp add: Let_def issued_lookup MAX_VERIFICATION_ATTEMPTS_def plain_compare_def Valid_def)
  show ?thesis using r1 r2 r3 by simp
qed

end
